theory Spec2Isabelle
  imports Main "HOL-Library.Multiset"
begin

section \<open>Data model\<close>

text \<open>
  The two controllers of \<^verbatim>\<open>fastCourseListCtrl.js\<close> read JSON objects. A faculty group of
  the structured listing (and an entry of the accordion's \<^verbatim>\<open>$scope.subjectBin\<close>, which
  has the same shape) carries a faculty name and a sequence of subject objects; the
  subject objects are never inspected, so their type is a parameter.
\<close>

record 'a SFacultyGroup =
  faculty :: string
  subjects :: "'a list"

text \<open>
  A course of the flat listing, with the three properties the code reads:
  \<^verbatim>\<open>course.faculty\<close>, \<^verbatim>\<open>course.subject\<close> and \<^verbatim>\<open>course.asString\<close>.
\<close>

record course =
  faculty :: string
  subject :: string
  asString :: string

text \<open>
  An object of a page of the flat listing: a course together with its remaining
  properties, which the controller never reads; \<open>other\<close> holds them as text.
\<close>

record listed_course = course +
  other :: string

text \<open>A page of the flat listing: \<^verbatim>\<open>{objects: [...], total_pages: N}\<close>.\<close>

record page_listing =
  objects :: "listed_course list"
  total_pages :: int

text \<open>
  An HTTP promise resolves through its \<^verbatim>\<open>success\<close> callback with the parsed body, or
  through its \<^verbatim>\<open>error\<close> callback.
\<close>

datatype 'a response = Success 'a | Error

text \<open>The exception the code can raise: a call of something that is not a function.\<close>

datatype js_error = TypeError

section \<open>The fast course list controller: paging and grouping\<close>

text \<open>
  \<^verbatim>\<open>subjectBin\<close> is an object keyed by faculty whose values are objects keyed by subject,
  each holding an array of display strings. Both levels are plain JavaScript objects:
  besides their own properties they have a prototype, and two property names are not
  ordinary keys. Assigning to \<^verbatim>\<open>__proto__\<close> replaces the prototype and creates no own
  property; and the method \<^verbatim>\<open>hasOwnProperty\<close> that lines 33 and 35 call is looked up on
  the object itself, so an own property of that name hides it.

  The object stored under a faculty: its own properties, and its prototype when an
  assignment to \<^verbatim>\<open>__proto__\<close> has put an array there (\<open>None\<close> is the prototype every
  object starts with).
\<close>

record faculty_object =
  props :: "string \<rightharpoonup> string list"
  proto :: "string list option"

text \<open>\<^verbatim>\<open>subjectBin\<close> itself, likewise.\<close>

record subject_bin =
  own :: "string \<rightharpoonup> faculty_object"
  bin_proto :: "faculty_object option"

definition empty_object :: faculty_object where
  "empty_object = \<lparr>props = Map.empty, proto = None\<rparr>"

definition empty_bin :: subject_bin where
  "empty_bin = \<lparr>own = Map.empty, bin_proto = None\<rparr>"

text \<open>
  \<^verbatim>\<open>subjectBin.hasOwnProperty(k)\<close>: the method is found on the object, then on its
  prototype. An own property \<^verbatim>\<open>hasOwnProperty\<close> of either holds an object or an array,
  and calling that throws; otherwise the built-in method tests the own properties. An
  array put in as the prototype of the prototype has no such property of its own.
\<close>

definition bin_hasOwnProperty :: "subject_bin \<Rightarrow> string \<Rightarrow> js_error + bool" where
  "bin_hasOwnProperty bin k =
     (if own bin ''hasOwnProperty'' \<noteq> None then Inl TypeError
      else if (case bin_proto bin of None \<Rightarrow> False
               | Some p \<Rightarrow> props p ''hasOwnProperty'' \<noteq> None) then Inl TypeError
      else Inr (own bin k \<noteq> None))"

text \<open>\<^verbatim>\<open>subjectBin[faculty].hasOwnProperty(k)\<close>, on the object of a faculty.\<close>

definition obj_hasOwnProperty :: "faculty_object \<Rightarrow> string \<Rightarrow> js_error + bool" where
  "obj_hasOwnProperty obj k =
     (if props obj ''hasOwnProperty'' \<noteq> None then Inl TypeError
      else Inr (props obj k \<noteq> None))"

text \<open>The assignments \<^verbatim>\<open>obj[k] = v\<close> on the two kinds of object.\<close>

definition obj_set :: "string \<Rightarrow> string list \<Rightarrow> faculty_object \<Rightarrow> faculty_object" where
  "obj_set k v obj =
     (if k = ''__proto__'' then obj\<lparr>proto := Some v\<rparr>
      else obj\<lparr>props := (props obj)(k \<mapsto> v)\<rparr>)"

definition bin_set :: "string \<Rightarrow> faculty_object \<Rightarrow> subject_bin \<Rightarrow> subject_bin" where
  "bin_set k v bin =
     (if k = ''__proto__'' then bin\<lparr>bin_proto := Some v\<rparr>
      else bin\<lparr>own := (own bin)(k \<mapsto> v)\<rparr>)"

text \<open>
  The body of the \<^verbatim>\<open>forEach\<close> over a page's courses (lines 32 to 47). The only statements
  that can throw are the two calls of \<^verbatim>\<open>hasOwnProperty\<close>, and they come before any
  change, so an exception leaves the bin as it was. In the last branch line 43 stores a
  fresh object and line 44 reads it back through the same name to fill it; the branches
  for a missing object or array cannot be reached after a successful test.
\<close>

definition insert_course :: "listed_course \<Rightarrow> subject_bin \<Rightarrow> js_error + subject_bin" where
  "insert_course c bin =
     (case bin_hasOwnProperty bin (course.faculty c) of
        Inl e \<Rightarrow> Inl e
      | Inr True \<Rightarrow>
          (case own bin (course.faculty c) of
             None \<Rightarrow> Inl TypeError
           | Some obj \<Rightarrow>
               (case obj_hasOwnProperty obj (subject c) of
                  Inl e \<Rightarrow> Inl e
                | Inr True \<Rightarrow>
                    (case props obj (subject c) of
                       None \<Rightarrow> Inl TypeError
                     | Some xs \<Rightarrow>
                         Inr (bin\<lparr>own := (own bin)(course.faculty c \<mapsto>
                                obj\<lparr>props := (props obj)(subject c \<mapsto> xs @ [asString c])\<rparr>)\<rparr>))
                | Inr False \<Rightarrow>
                    Inr (bin\<lparr>own := (own bin)(course.faculty c \<mapsto>
                           obj_set (subject c) [asString c] obj)\<rparr>)))
      | Inr False \<Rightarrow>
          Inr (bin_set (course.faculty c) (obj_set (subject c) [asString c] empty_object) bin))"

text \<open>
  \<^verbatim>\<open>pageListing.objects.forEach(...)\<close>: the courses are merged in order; an exception ends
  the loop, and what was merged before it stays. The result is the bin and whether an
  exception ended the loop.
\<close>

fun forEach_course :: "listed_course list \<Rightarrow> subject_bin \<Rightarrow> subject_bin \<times> bool" where
  "forEach_course [] bin = (bin, False)"
| "forEach_course (c # cs) bin =
     (case insert_course c bin of
        Inl e \<Rightarrow> (bin, True)
      | Inr bin' \<Rightarrow> forEach_course cs bin')"

text \<open>
  The controller's variables, and what surrounds them. \<open>requested\<close> logs the calls of
  \<^verbatim>\<open>fastCourseFactory.getCoursesPage\<close> in the order they are made; \<open>first_pending\<close> tells
  whether the first request still awaits its response and \<open>pending\<close> holds the pages the
  loop has requested whose responses have not arrived; \<open>alerts\<close> counts the calls of
  \<^verbatim>\<open>$window.alert\<close> and \<open>thrown\<close> the callbacks ended by an exception. \<open>total_pages_v\<close> is
  the variable \<^verbatim>\<open>total_pages\<close>, undefined until the first response arrives.
\<close>

record fast_state =
  subjectBin :: subject_bin
  pageListing :: "page_listing option"
  page :: int
  total_pages_v :: "int option"
  requested :: "int list"
  first_pending :: bool
  pending :: "int list"
  alerts :: nat
  thrown :: nat

text \<open>
  The controller body: both bins are the same empty object, \<^verbatim>\<open>page\<close> is 1, and page 1 is
  requested.
\<close>

definition fastCourseListCtrl :: fast_state where
  "fastCourseListCtrl =
     \<lparr>subjectBin = empty_bin, pageListing = None, page = 1, total_pages_v = None,
      requested = [1], first_pending = True, pending = [], alerts = 0, thrown = 0\<rparr>"

text \<open>
  The loop \<^verbatim>\<open>while (page < (total_pages + 1))\<close> of lines 25 to 54: each round requests
  the current page and increments \<^verbatim>\<open>page\<close>. The callbacks it registers run later, when
  the responses arrive. A comparison with an undefined \<^verbatim>\<open>total_pages\<close> is false.
\<close>

function while_pages :: "fast_state \<Rightarrow> fast_state" where
  "while_pages s =
     (case total_pages_v s of
        None \<Rightarrow> s
      | Some n \<Rightarrow>
          if page s < n + 1
          then while_pages (s\<lparr>requested := requested s @ [page s],
                              pending := pending s @ [page s], page := page s + 1\<rparr>)
          else s)"
  by pat_completeness auto
termination
  by (relation "measure (\<lambda>s. case total_pages_v s of None \<Rightarrow> 0 | Some n \<Rightarrow> nat (n + 1 - page s))")
     auto

declare while_pages.simps [simp del]

text \<open>The callbacks of the first request (lines 19 to 58).\<close>

definition first_success :: "page_listing \<Rightarrow> fast_state \<Rightarrow> fast_state" where
  "first_success data s =
     while_pages (s\<lparr>pageListing := Some data, total_pages_v := Some (total_pages data)\<rparr>)"

definition first_error :: "fast_state \<Rightarrow> fast_state" where
  "first_error s = s\<lparr>alerts := alerts s + 1\<rparr>"

text \<open>
  The callbacks of a request made by the loop (lines 27 to 51). An exception thrown in
  the callback ends that callback only.
\<close>

definition page_success :: "page_listing \<Rightarrow> fast_state \<Rightarrow> fast_state" where
  "page_success data s =
     (let (bin, threw) = forEach_course (objects data) (subjectBin s)
      in s\<lparr>pageListing := Some data, subjectBin := bin,
           thrown := thrown s + (if threw then 1 else 0)\<rparr>)"

definition page_error :: "fast_state \<Rightarrow> fast_state" where
  "page_error s = s\<lparr>alerts := alerts s + 1\<rparr>"

text \<open>
  The event loop runs one callback at a time, to completion. An event is the arrival of
  the response to the first request, or to the loop's request for a page; the order of
  the events is the order in which the responses arrive. A response can only arrive
  for a request that is awaiting one: any other event changes nothing.
\<close>

datatype event =
  First_resolved "page_listing response" | Page_resolved int "page_listing response"

fun handle :: "event \<Rightarrow> fast_state \<Rightarrow> fast_state" where
  "handle (First_resolved r) s =
     (if first_pending s
      then (case r of
              Success data \<Rightarrow> first_success data (s\<lparr>first_pending := False\<rparr>)
            | Error \<Rightarrow> first_error (s\<lparr>first_pending := False\<rparr>))
      else s)"
| "handle (Page_resolved p r) s =
     (if p \<in> set (pending s)
      then (case r of
              Success data \<Rightarrow> page_success data (s\<lparr>pending := remove1 p (pending s)\<rparr>)
            | Error \<Rightarrow> page_error (s\<lparr>pending := remove1 p (pending s)\<rparr>))
      else s)"

definition run :: "event list \<Rightarrow> fast_state" where
  "run evs = fold handle evs fastCourseListCtrl"

text \<open>
  What \<^verbatim>\<open>subjectBin[f][s]\<close> holds as own properties, the empty sequence when a key is
  absent.
\<close>

definition entries :: "subject_bin \<Rightarrow> string \<Rightarrow> string \<Rightarrow> string list" where
  "entries bin f s =
     (case own bin f of
        None \<Rightarrow> []
      | Some obj \<Rightarrow> (case props obj s of None \<Rightarrow> [] | Some xs \<Rightarrow> xs))"

text \<open>
  A course whose faculty and subject are ordinary keys, neither of the two names that
  JavaScript treats specially.
\<close>

definition ordinary_key :: "string \<Rightarrow> bool" where
  "ordinary_key k = (k \<noteq> ''hasOwnProperty'' \<and> k \<noteq> ''__proto__'')"

definition ordinary :: "listed_course \<Rightarrow> bool" where
  "ordinary c = (ordinary_key (course.faculty c) \<and> ordinary_key (subject c))"

text \<open>
  The course records on the pages \<open>ps\<close> whose requests succeed, when \<open>server p\<close> is the
  response to the loop's request for page \<open>p\<close>.
\<close>

definition records_of :: "(int \<Rightarrow> page_listing response) \<Rightarrow> int list \<Rightarrow> listed_course list" where
  "records_of server ps =
     concat (map (\<lambda>p. case server p of Success data \<Rightarrow> objects data | Error \<Rightarrow> []) ps)"

text \<open>
  A bin that behaves as a plain map: no prototype was replaced and no property hides
  \<^verbatim>\<open>hasOwnProperty\<close>.
\<close>

definition plain :: "subject_bin \<Rightarrow> bool" where
  "plain bin =
     (own bin ''hasOwnProperty'' = None \<and> bin_proto bin = None \<and>
      (\<forall>f obj. own bin f = Some obj \<longrightarrow> props obj ''hasOwnProperty'' = None))"

text \<open>
  Of the pages whose responses arrive in the order \<open>ps\<close>, those that were awaited, in the
  order they are handled, when the pages \<open>pend\<close> are awaited at the start.
\<close>

fun resolved :: "int list \<Rightarrow> int list \<Rightarrow> int list" where
  "resolved pend [] = []"
| "resolved pend (p # ps) =
     (if p \<in> set pend then p # resolved (remove1 p pend) ps else resolved pend ps)"

section \<open>The fast course list controller: the filter watcher\<close>

text \<open>
  The value of \<^verbatim>\<open>searchBox\<close> handed to the watcher: undefined until the user types, a
  string afterwards.
\<close>

datatype js_text = Undefined | Text string

text \<open>
  The watcher's variables (lines 69 to 71) and the state of the \<^verbatim>\<open>$timeout\<close> service
  on a logical clock counting milliseconds: \<open>timers\<close> holds the pending timers, each a
  handle with the time it is due, \<open>next_timer\<close> is the next fresh handle and \<open>now\<close> the
  current time. \<open>published\<close> logs every assignment the timer callback makes to
  \<^verbatim>\<open>$scope.filterText\<close>, with the time it is made.
\<close>

record deb_state =
  filterText :: js_text
  tempFilterText :: js_text
  filterTextTimeout :: "nat option"
  timers :: "(nat \<times> nat) list"
  next_timer :: nat
  now :: nat
  published :: "(nat \<times> js_text) list"

definition deb_init :: deb_state where
  "deb_init =
     \<lparr>filterText = Text [], tempFilterText = Text [], filterTextTimeout = None,
      timers = [], next_timer = 0, now = 0, published = []\<rparr>"

text \<open>
  \<^verbatim>\<open>$timeout.cancel(promise)\<close> removes the timer of that handle, if it is still pending;
  \<^verbatim>\<open>$timeout(fn, delay)\<close> registers a timer due \<open>delay\<close> milliseconds from now and returns
  its handle.
\<close>

definition timeout_cancel :: "nat \<Rightarrow> deb_state \<Rightarrow> deb_state" where
  "timeout_cancel h s = s\<lparr>timers := filter (\<lambda>(h', d). h' \<noteq> h) (timers s)\<rparr>"

definition timeout_set :: "nat \<Rightarrow> deb_state \<Rightarrow> nat \<times> deb_state" where
  "timeout_set delay s =
     (next_timer s,
      s\<lparr>timers := timers s @ [(next_timer s, now s + delay)], next_timer := Suc (next_timer s)\<rparr>)"

text \<open>The listener registered by \<^verbatim>\<open>$scope.$watch('searchBox', ...)\<close> (lines 72 to 80).\<close>

definition watch_searchBox :: "js_text \<Rightarrow> deb_state \<Rightarrow> deb_state" where
  "watch_searchBox val s =
     (let s1 = (case filterTextTimeout s of Some h \<Rightarrow> timeout_cancel h s | None \<Rightarrow> s);
          s2 = s1\<lparr>tempFilterText := val\<rparr>;
          (h, s3) = timeout_set 500 s2
      in s3\<lparr>filterTextTimeout := Some h\<rparr>)"

text \<open>
  The callback handed to \<^verbatim>\<open>$timeout\<close> (lines 77 to 79), run when its timer is due at
  time \<open>d\<close>: it reads \<^verbatim>\<open>tempFilterText\<close> at that moment.
\<close>

definition timer_callback :: "nat \<Rightarrow> deb_state \<Rightarrow> deb_state" where
  "timer_callback d s =
     s\<lparr>now := d, filterText := tempFilterText s,
       published := published s @ [(d, tempFilterText s)]\<rparr>"

text \<open>
  Time passes up to \<open>t\<close>: the pending timers due by then fire in the order of their due
  times (those registered first go first among equals), and the clock never runs
  backwards. The callback registers no timer, so one pass over the due timers is enough.
\<close>

definition advance_to :: "nat \<Rightarrow> deb_state \<Rightarrow> deb_state" where
  "advance_to t s =
     (let due = sort_key snd (filter (\<lambda>(h, d). d \<le> t) (timers s));
          s' = fold (\<lambda>(h, d). timer_callback d) due
                 (s\<lparr>timers := filter (\<lambda>(h, d). \<not> d \<le> t) (timers s)\<rparr>)
      in s'\<lparr>now := max (now s') t\<rparr>)"

text \<open>
  What happens to the watcher: the input changes to a value at a time, or time passes
  up to a time. A timer due at the very time of a change fires before the change is
  handled.
\<close>

datatype deb_event = Input nat js_text | Wait nat

fun deb_handle :: "deb_event \<Rightarrow> deb_state \<Rightarrow> deb_state" where
  "deb_handle (Input t v) s = watch_searchBox v (advance_to t s)"
| "deb_handle (Wait t) s = advance_to t s"

definition deb_run :: "deb_event list \<Rightarrow> deb_state" where
  "deb_run evs = fold deb_handle evs deb_init"

text \<open>
  The publishes a debouncer owes for a change \<open>(t, v)\<close> followed by the changes \<open>rest\<close>
  when time has passed up to \<open>T\<close>, in the words of the specification: a value is published,
  one delay after its change, exactly when no further change arrived before that moment.
\<close>

fun spec_published :: "nat \<times> js_text \<Rightarrow> (nat \<times> js_text) list \<Rightarrow> nat \<Rightarrow> (nat \<times> js_text) list" where
  "spec_published (t, v) [] T = (if t + 500 \<le> T then [(t + 500, v)] else [])"
| "spec_published (t, v) ((t', v') # rest) T =
     (if t + 500 \<le> t' then [(t + 500, v)] else []) @ spec_published (t', v') rest T"

section \<open>The accordion controller: merging faculty groups\<close>

text \<open>
  \<^verbatim>\<open>subjectBinObject.push(Ssubject)\<close> (line 125): \<^verbatim>\<open>subjectBinObject\<close> is an element of
  \<^verbatim>\<open>$scope.subjectBin\<close>, a plain object with the properties \<^verbatim>\<open>faculty\<close> and \<^verbatim>\<open>subjects\<close>.
  It has no property \<^verbatim>\<open>push\<close>, so the call throws a TypeError and changes nothing.
\<close>

definition entry_push :: "'a SFacultyGroup \<Rightarrow> 'a \<Rightarrow> js_error + 'a SFacultyGroup" where
  "entry_push subjectBinObject Ssubject = Inl TypeError"

text \<open>The inner \<^verbatim>\<open>forEach\<close> over \<^verbatim>\<open>SFacultyGroup.subjects\<close> (lines 124 to 126).\<close>

fun push_subjects :: "'a list \<Rightarrow> 'a SFacultyGroup \<Rightarrow> js_error + 'a SFacultyGroup" where
  "push_subjects [] obj = Inr obj"
| "push_subjects (x # xs) obj =
     (case entry_push obj x of Inl e \<Rightarrow> Inl e | Inr obj' \<Rightarrow> push_subjects xs obj')"

text \<open>
  The outer \<^verbatim>\<open>forEach\<close> over \<^verbatim>\<open>$scope.subjectBin\<close> (lines 120 to 129): the bin after the
  pass and the flag \<^verbatim>\<open>inserted\<close>, or the exception that ended it.
\<close>

fun insert_existing ::
  "'a SFacultyGroup \<Rightarrow> 'a SFacultyGroup list \<Rightarrow> js_error + ('a SFacultyGroup list \<times> bool)" where
  "insert_existing g [] = Inr ([], False)"
| "insert_existing g (obj # rest) =
     (if SFacultyGroup.faculty obj = SFacultyGroup.faculty g
      then (case push_subjects (subjects g) obj of
              Inl e \<Rightarrow> Inl e
            | Inr obj' \<Rightarrow>
                (case insert_existing g rest of
                   Inl e \<Rightarrow> Inl e
                 | Inr (rest', inserted) \<Rightarrow> Inr (obj' # rest', True)))
      else (case insert_existing g rest of
              Inl e \<Rightarrow> Inl e
            | Inr (rest', inserted) \<Rightarrow> Inr (obj # rest', inserted)))"

text \<open>
  \<^verbatim>\<open>insertIntoSubjectBin\<close> (lines 115 to 144), on the bin \<^verbatim>\<open>$scope.subjectBin\<close>. The only
  statement that can throw changes nothing before it throws, so an exception leaves the
  bin as it was.
\<close>

definition insertIntoSubjectBin ::
  "'a SFacultyGroup \<Rightarrow> 'a SFacultyGroup list \<Rightarrow> js_error + 'a SFacultyGroup list" where
  "insertIntoSubjectBin g bin =
     (case insert_existing g bin of
        Inl e \<Rightarrow> Inl e
      | Inr (bin', inserted) \<Rightarrow>
          if \<not> inserted
          then Inr (bin' @ [\<lparr>SFacultyGroup.faculty = SFacultyGroup.faculty g,
                             subjects = fold (\<lambda>x acc. acc @ [x]) (subjects g) []\<rparr>])
          else Inr bin')"

section \<open>The accordion controller: sorting by course number\<close>

definition is_digit :: "char \<Rightarrow> bool" where
  "is_digit c = (c \<in> set ''0123456789'')"

text \<open>
  \<^verbatim>\<open>str.match(/\d+/)\<close>: null when the string has no digit, otherwise an array whose
  single element is the leftmost longest run of digits.
\<close>

datatype match_result = Null | Match "string list"

definition match_digits :: "string \<Rightarrow> match_result" where
  "match_digits s =
     (case dropWhile (\<lambda>c. \<not> is_digit c) s of
        [] \<Rightarrow> Null
      | d # rest \<Rightarrow> Match [takeWhile is_digit (d # rest)])"

text \<open>\<^verbatim>\<open>Array.prototype.toString\<close>: the elements joined by commas.\<close>

fun join_comma :: "string list \<Rightarrow> string" where
  "join_comma [] = []"
| "join_comma [x] = x"
| "join_comma (x # y # ys) = x @ '','' @ join_comma (y # ys)"

text \<open>
  The comparison of two strings by \<^verbatim>\<open><\<close>: a proper prefix is smaller; otherwise the
  first position where the strings differ decides, by character code.
\<close>

fun string_less :: "string \<Rightarrow> string \<Rightarrow> bool" where
  "string_less [] [] = False"
| "string_less [] (y # ys) = True"
| "string_less (x # xs) [] = False"
| "string_less (x # xs) (y # ys) =
     (if x = y then string_less xs ys else (of_char x :: nat) < of_char y)"

text \<open>The number a string of decimal digits denotes.\<close>

definition digits_value :: "string \<Rightarrow> nat" where
  "digits_value ds = foldl (\<lambda>n c. 10 * n + (of_char c - 48)) 0 ds"

text \<open>
  \<^verbatim>\<open>x < y\<close> on two results of \<^verbatim>\<open>match\<close>. An array becomes the string of its elements
  joined by commas and null becomes the number 0. Two strings are compared as strings;
  otherwise the string is read as a number and the numbers are compared. The only
  comparisons with a number here are with 0, so the rounding of large numbers does not
  matter.
\<close>

fun js_less :: "match_result \<Rightarrow> match_result \<Rightarrow> bool" where
  "js_less (Match xs) (Match ys) = string_less (join_comma xs) (join_comma ys)"
| "js_less Null (Match ys) = (0 < digits_value (join_comma ys))"
| "js_less (Match xs) Null = (digits_value (join_comma xs) < 0)"
| "js_less Null Null = False"

text \<open>\<^verbatim>\<open>compareByCourseNumber\<close> (lines 224 to 237); \<^verbatim>\<open>x > y\<close> is \<^verbatim>\<open>y < x\<close>.\<close>

definition compareByCourseNumber :: "course \<Rightarrow> course \<Rightarrow> int" where
  "compareByCourseNumber a b =
     (let aNum = match_digits (asString a);
          bNum = match_digits (asString b)
      in if js_less aNum bNum then - 1
         else if js_less bNum aNum then 1
         else 0)"

text \<open>
  \<^verbatim>\<open>Array.prototype.sort\<close> with a comparator, as a stable insertion sort: an element goes
  before the first element of the sorted rest that the comparator does not put before it.
\<close>

fun insert_by :: "('a \<Rightarrow> 'a \<Rightarrow> int) \<Rightarrow> 'a \<Rightarrow> 'a list \<Rightarrow> 'a list" where
  "insert_by cmp x [] = [x]"
| "insert_by cmp x (y # ys) = (if cmp x y \<le> 0 then x # y # ys else y # insert_by cmp x ys)"

definition array_sort :: "('a \<Rightarrow> 'a \<Rightarrow> int) \<Rightarrow> 'a list \<Rightarrow> 'a list" where
  "array_sort cmp xs = foldr (insert_by cmp) xs []"

section \<open>The accordion controller: descriptions and the schedule\<close>

text \<open>The body of a detail response: \<^verbatim>\<open>{courseDescription: ...}\<close>.\<close>

record detail =
  courseDescription :: string

text \<open>
  A course handed to \<^verbatim>\<open>addToSchedule\<close> is an object, that is a reference; \<^verbatim>\<open>indexOf\<close>
  compares with \<^verbatim>\<open>===\<close>, which on objects is equality of references. The contents of
  the objects live in a store from references to course records, which
  \<^verbatim>\<open>addToSchedule\<close> never reads.
\<close>

type_synonym obj_ref = nat

type_synonym store = "obj_ref \<Rightarrow> course"

definition value_equal :: "store \<Rightarrow> obj_ref \<Rightarrow> obj_ref \<Rightarrow> bool" where
  "value_equal h r r' = (h r = h r')"

text \<open>
  The controller's state: the description cache \<^verbatim>\<open>$scope.description\<close>, the log of the
  calls of \<^verbatim>\<open>detailFactory.getDetails\<close>, the number of alerts shown,
  \<^verbatim>\<open>$rootScope.addedCourses\<close> and \<^verbatim>\<open>$rootScope.shoppingCartSize\<close>.
\<close>

record accordion_state =
  description :: "nat \<rightharpoonup> string"
  detail_requests :: "nat list"
  window_alerts :: nat
  addedCourses :: "obj_ref list"
  shoppingCartSize :: nat

definition accordionCtrl :: accordion_state where
  "accordionCtrl =
     \<lparr>description = Map.empty, detail_requests = [], window_alerts = 0,
      addedCourses = [], shoppingCartSize = 0\<rparr>"

text \<open>\<^verbatim>\<open>$scope.loadMore\<close> (lines 262 to 274) and the callbacks of its request.\<close>

definition loadMore :: "nat \<Rightarrow> accordion_state \<Rightarrow> accordion_state" where
  "loadMore courseIdNumber s =
     (if description s courseIdNumber = None
      then s\<lparr>detail_requests := detail_requests s @ [courseIdNumber]\<rparr>
      else s)"

definition details_success :: "nat \<Rightarrow> detail \<Rightarrow> accordion_state \<Rightarrow> accordion_state" where
  "details_success courseIdNumber result s =
     s\<lparr>description := (description s)(courseIdNumber \<mapsto> courseDescription result)\<rparr>"

definition details_error :: "accordion_state \<Rightarrow> accordion_state" where
  "details_error s = s\<lparr>window_alerts := window_alerts s + 1\<rparr>"

text \<open>\<^verbatim>\<open>Array.prototype.indexOf\<close>: the first index holding the element, or -1.\<close>

fun indexOf :: "obj_ref list \<Rightarrow> obj_ref \<Rightarrow> int" where
  "indexOf [] x = - 1"
| "indexOf (y # ys) x =
     (if y = x then 0 else (let i = indexOf ys x in if i = - 1 then - 1 else i + 1))"

text \<open>\<^verbatim>\<open>$scope.addToSchedule\<close> (lines 312 to 320).\<close>

definition addToSchedule :: "obj_ref \<Rightarrow> accordion_state \<Rightarrow> accordion_state" where
  "addToSchedule c s =
     (if indexOf (addedCourses s) c = - 1
      then s\<lparr>addedCourses := addedCourses s @ [c], shoppingCartSize := shoppingCartSize s + 1\<rparr>
      else s)"

text \<open>
  What the accordion controller reacts to: a click that loads a description, the
  resolution of a detail request, and a click on the add button.
\<close>

datatype accordion_event =
  Load_more nat | Details_resolved nat "detail response" | Add_to_schedule obj_ref

fun accordion_handle :: "accordion_event \<Rightarrow> accordion_state \<Rightarrow> accordion_state" where
  "accordion_handle (Load_more i) s = loadMore i s"
| "accordion_handle (Details_resolved i (Success result)) s = details_success i result s"
| "accordion_handle (Details_resolved i Error) s = details_error s"
| "accordion_handle (Add_to_schedule c) s = addToSchedule c s"

definition accordion_run :: "accordion_event list \<Rightarrow> accordion_state \<Rightarrow> accordion_state" where
  "accordion_run evs s = fold accordion_handle evs s"

section \<open>Example data\<close>

abbreviation cmput_101 :: course where
  "cmput_101 \<equiv>
     \<lparr>course.faculty = ''Science'', subject = ''CMPUT'', asString = ''CMPUT 101''\<rparr>"

abbreviation cmput_2 :: course where
  "cmput_2 \<equiv> \<lparr>course.faculty = ''Science'', subject = ''CMPUT'', asString = ''CMPUT 2''\<rparr>"

abbreviation cmput_10 :: course where
  "cmput_10 \<equiv> \<lparr>course.faculty = ''Science'', subject = ''CMPUT'', asString = ''CMPUT 10''\<rparr>"

text \<open>The same course as an object of a page, with no further properties.\<close>

abbreviation listed_cmput_101 :: listed_course where
  "listed_cmput_101 \<equiv>
     \<lparr>course.faculty = ''Science'', subject = ''CMPUT'', asString = ''CMPUT 101'', other = []\<rparr>"

text \<open>Another object with the same faculty, subject and display string.\<close>

abbreviation listed_cmput_101_twin :: listed_course where
  "listed_cmput_101_twin \<equiv>
     \<lparr>course.faculty = ''Science'', subject = ''CMPUT'', asString = ''CMPUT 101'',
      other = ''twin''\<rparr>"

abbreviation listed_math_125 :: listed_course where
  "listed_math_125 \<equiv>
     \<lparr>course.faculty = ''Science'', subject = ''MATH'', asString = ''MATH 125'', other = []\<rparr>"

text \<open>A course of a faculty named like the method the code calls.\<close>

abbreviation listed_odd :: listed_course where
  "listed_odd \<equiv>
     \<lparr>course.faculty = ''hasOwnProperty'', subject = ''HOP'', asString = ''HOP 100'',
      other = []\<rparr>"

text \<open>The grouped structure \<^verbatim>\<open>{"Science": {"CMPUT": ["CMPUT 101"]}}\<close>.\<close>

abbreviation science_cmput_101 :: subject_bin where
  "science_cmput_101 \<equiv>
     \<lparr>own = [''Science'' \<mapsto> \<lparr>props = [''CMPUT'' \<mapsto> [''CMPUT 101'']], proto = None\<rparr>],
      bin_proto = None\<rparr>"

text \<open>A catalogue of three pages: the request for page 2 fails.\<close>

abbreviation three_pages :: "int \<Rightarrow> page_listing response" where
  "three_pages \<equiv>
     (\<lambda>p. if p = 1 then Success \<lparr>objects = [listed_cmput_101], total_pages = 3\<rparr>
          else if p = 2 then Error
          else Success \<lparr>objects = [listed_math_125], total_pages = 3\<rparr>)"

section \<open>Paging\<close>

lemma while_pages_log:
  "total_pages_v s = Some n \<Longrightarrow>
   requested (while_pages s) = requested s @ [page s..n] \<and>
   pending (while_pages s) = pending s @ [page s..n]"
proof (induction s rule: while_pages.induct)
  case (1 s)
  show ?case
  proof (cases "page s < n + 1")
    case True
    then have "[page s..n] = page s # [page s + 1..n]"
      by (simp add: upto.simps)
    with 1 True show ?thesis
      by (subst (1 2) while_pages.simps) simp
  next
    case False
    then have "[page s..n] = []"
      by simp
    with 1 False show ?thesis
      by (subst (1 2) while_pages.simps) simp
  qed
qed

lemma while_pages_frame:
  "subjectBin (while_pages s) = subjectBin s \<and> first_pending (while_pages s) = first_pending s \<and>
   thrown (while_pages s) = thrown s \<and> total_pages_v (while_pages s) = total_pages_v s"
proof (induction s rule: while_pages.induct)
  case (1 s)
  show ?case
  proof (cases "total_pages_v s")
    case None
    then show ?thesis
      by (subst (1 2 3 4) while_pages.simps) simp
  next
    case (Some n)
    with 1 show ?thesis
      by (subst (1 2 3 4) while_pages.simps) simp
  qed
qed

text \<open>The state the first response leaves, when it succeeds.\<close>

lemma first_success_state:
  "requested (handle (First_resolved (Success d)) fastCourseListCtrl) = 1 # [1..total_pages d] \<and>
   pending (handle (First_resolved (Success d)) fastCourseListCtrl) = [1..total_pages d] \<and>
   subjectBin (handle (First_resolved (Success d)) fastCourseListCtrl) = empty_bin \<and>
   thrown (handle (First_resolved (Success d)) fastCourseListCtrl) = 0 \<and>
   first_pending (handle (First_resolved (Success d)) fastCourseListCtrl) = False"
  by (simp add: first_success_def while_pages_log while_pages_frame fastCourseListCtrl_def)

lemma not_first_pending_requested:
  "\<not> first_pending s \<Longrightarrow> requested (fold handle evs s) = requested s"
proof (induction evs arbitrary: s)
  case Nil
  show ?case
    by simp
next
  case (Cons ev evs)
  have "\<not> first_pending (handle ev s) \<and> requested (handle ev s) = requested s"
  proof (cases ev)
    case (First_resolved r)
    with Cons.prems show ?thesis
      by simp
  next
    case (Page_resolved p r)
    with Cons.prems show ?thesis
      by (cases r) (simp_all add: page_success_def page_error_def split_beta)
  qed
  with Cons.IH [of "handle ev s"] show ?case
    by simp
qed

lemma no_page_before_first:
  "pending s = [] \<Longrightarrow> fold handle (map (\<lambda>(p, r). Page_resolved p r) prs) s = s"
  by (induction prs) (simp_all add: split_beta)

text \<open>
  C3, as the code has it. Before any response only page 1 has been requested and no
  page is awaited, so no page response can arrive before the first response does. When
  the first response fails nothing more is ever requested. When it succeeds with
  \<open>total_pages = n\<close>, the loop requests the pages 1 to \<open>n\<close> in increasing order, page 1
  a second time, and whatever arrives afterwards triggers no further request; the
  first response itself is not merged: it leaves the bin empty and only supplies
  \<open>total_pages\<close>.
\<close>

theorem requests_after_first_response:
  "requested (run []) = [1] \<and> pending (run []) = [] \<and>
   run (map (\<lambda>(p, r). Page_resolved p r) prs) = run [] \<and>
   requested (run (First_resolved Error # evs)) = [1] \<and>
   requested (run (First_resolved (Success d) # evs)) = 1 # [1..total_pages d] \<and>
   pending (run [First_resolved (Success d)]) = [1..total_pages d] \<and>
   subjectBin (run [First_resolved (Success d)]) = empty_bin"
proof -
  have a: "requested (run []) = [1]" "pending (run []) = []"
    by (simp_all add: run_def fastCourseListCtrl_def)
  have b: "run (map (\<lambda>(p, r). Page_resolved p r) prs) = run []"
    by (simp add: run_def no_page_before_first fastCourseListCtrl_def)
  have "\<not> first_pending (handle (First_resolved Error) fastCourseListCtrl)"
    "requested (handle (First_resolved Error) fastCourseListCtrl) = [1]"
    by (simp_all add: first_error_def fastCourseListCtrl_def)
  then have c: "requested (run (First_resolved Error # evs)) = [1]"
    by (simp add: run_def not_first_pending_requested del: handle.simps)
  have d: "requested (run (First_resolved (Success d) # evs)) = 1 # [1..total_pages d]"
    using first_success_state [of d]
    by (simp add: run_def not_first_pending_requested del: handle.simps)
  have e: "pending (run [First_resolved (Success d)]) = [1..total_pages d]"
    "subjectBin (run [First_resolved (Success d)]) = empty_bin"
    using first_success_state [of d] by (simp_all add: run_def del: handle.simps)
  from a b c d e show ?thesis
    by simp
qed

text \<open>
  C3 as stated fails: with \<open>total_pages = 2\<close> the requests are for the pages 1, 1, 2 and
  not for 1, 2.
\<close>

theorem page_one_requested_twice:
  "requested (run [First_resolved (Success \<lparr>objects = [], total_pages = 2\<rparr>)]) = [1, 1, 2] \<and>
   requested (run [First_resolved (Success \<lparr>objects = [], total_pages = 2\<rparr>)]) \<noteq>
     1 # [2..total_pages \<lparr>objects = [], total_pages = 2\<rparr>]"
  using first_success_state [of "\<lparr>objects = [], total_pages = 2\<rparr>"]
  by (simp add: run_def upto.simps del: handle.simps)

section \<open>Grouping\<close>

lemma plain_empty_bin: "plain empty_bin"
  by (simp add: plain_def empty_bin_def)

lemma entries_empty_bin: "entries empty_bin f s = []"
  by (simp add: entries_def empty_bin_def)

text \<open>
  On a plain bin a course with ordinary keys is merged without an exception, its
  display string goes to the end of the sequence of its faculty and subject, and the
  bin stays plain.
\<close>

lemma insert_course_ordinary:
  assumes "ordinary c" "plain bin"
  shows "\<exists>bin'. insert_course c bin = Inr bin' \<and> plain bin' \<and>
     (\<forall>f s. entries bin' f s =
        entries bin f s @
        (if course.faculty c = f \<and> subject c = s then [asString c] else []))"
proof (cases "own bin (course.faculty c)")
  case None
  with assms show ?thesis
    by (auto simp: insert_course_def bin_hasOwnProperty_def bin_set_def obj_set_def
        empty_object_def entries_def plain_def ordinary_def ordinary_key_def)
next
  case (Some obj)
  show ?thesis
  proof (cases "props obj (subject c)")
    case None
    with Some assms show ?thesis
      by (auto simp: insert_course_def bin_hasOwnProperty_def obj_hasOwnProperty_def
          obj_set_def entries_def plain_def ordinary_def ordinary_key_def)
  next
    case (Some xs)
    with \<open>own bin (course.faculty c) = Some obj\<close> assms show ?thesis
      by (auto simp: insert_course_def bin_hasOwnProperty_def obj_hasOwnProperty_def
          entries_def plain_def ordinary_def ordinary_key_def)
  qed
qed

lemma forEach_course_ordinary:
  assumes "\<forall>c \<in> set cs. ordinary c" "plain bin"
  shows "snd (forEach_course cs bin) = False \<and> plain (fst (forEach_course cs bin)) \<and>
     (\<forall>f s. entries (fst (forEach_course cs bin)) f s =
        entries bin f s @
        map asString (filter (\<lambda>c. course.faculty c = f \<and> subject c = s) cs))"
  using assms
proof (induction cs arbitrary: bin)
  case Nil
  then show ?case
    by simp
next
  case (Cons c cs)
  from Cons.prems have "ordinary c"
    by simp
  from insert_course_ordinary [OF this Cons.prems(2)]
  obtain bin' where step: "insert_course c bin = Inr bin'" "plain bin'"
    "\<forall>f s. entries bin' f s =
        entries bin f s @
        (if course.faculty c = f \<and> subject c = s then [asString c] else [])"
    by blast
  from Cons.prems have "\<forall>c \<in> set cs. ordinary c"
    by simp
  from Cons.IH [OF this step(2)] step(1,3) show ?case
    by simp
qed

lemma forEach_course_append:
  "snd (forEach_course cs bin) = False \<Longrightarrow>
   forEach_course (cs @ ds) bin = forEach_course ds (fst (forEach_course cs bin))"
  by (induction cs arbitrary: bin) (auto split: sum.splits)

lemma records_of_Cons:
  "records_of server (p # ps) =
     (case server p of Success data \<Rightarrow> objects data | Error \<Rightarrow> []) @ records_of server ps"
  by (simp add: records_of_def)

lemma set_records_of:
  "set (records_of server ps) = (\<Union>p \<in> set ps. set (records_of server [p]))"
  by (induction ps) (simp_all add: records_of_def)

text \<open>
  The responses to the loop's requests arrive in the order \<open>ps\<close>: the bin is the one
  obtained by merging the records of the awaited pages in the order they are handled,
  no callback throws, and every awaited page is either handled or still awaited.
\<close>

lemma pages_resolved:
  assumes "plain (subjectBin s)"
    and "\<forall>c \<in> set (records_of server (pending s)). ordinary c"
  shows "subjectBin (fold handle (map (\<lambda>p. Page_resolved p (server p)) ps) s) =
       fst (forEach_course (records_of server (resolved (pending s) ps)) (subjectBin s)) \<and>
     snd (forEach_course (records_of server (resolved (pending s) ps)) (subjectBin s)) = False \<and>
     thrown (fold handle (map (\<lambda>p. Page_resolved p (server p)) ps) s) = thrown s \<and>
     requested (fold handle (map (\<lambda>p. Page_resolved p (server p)) ps) s) = requested s \<and>
     mset (pending (fold handle (map (\<lambda>p. Page_resolved p (server p)) ps) s)) +
       mset (resolved (pending s) ps) = mset (pending s)"
  using assms
proof (induction ps arbitrary: s)
  case Nil
  then show ?case
    by (simp add: records_of_def)
next
  case (Cons p ps)
  show ?case
  proof (cases "p \<in> set (pending s)")
    case False
    with Cons.IH [OF Cons.prems] show ?thesis
      by simp
  next
    case True
    let ?cs = "case server p of Success data \<Rightarrow> objects data | Error \<Rightarrow> []"
    let ?s1 = "handle (Page_resolved p (server p)) s"
    from True have "set ?cs \<subseteq> set (records_of server (pending s))"
      by (subst set_records_of) (auto simp: records_of_def)
    with Cons.prems(2) have ord: "\<forall>c \<in> set ?cs. ordinary c"
      by blast
    note fe = forEach_course_ordinary [OF ord Cons.prems(1)]
    have s1: "subjectBin ?s1 = fst (forEach_course ?cs (subjectBin s))"
      "thrown ?s1 = thrown s" "requested ?s1 = requested s"
      "pending ?s1 = remove1 p (pending s)"
      using True fe
      by (cases "server p"; simp add: page_success_def page_error_def split_beta)+
    from fe s1 have plain1: "plain (subjectBin ?s1)"
      by simp
    have "set (records_of server (remove1 p (pending s))) \<subseteq> set (records_of server (pending s))"
      using set_remove1_subset [of p "pending s"]
      by (subst (1 2) set_records_of) blast
    with Cons.prems(2) s1 have ord1: "\<forall>c \<in> set (records_of server (pending ?s1)). ordinary c"
      by auto
    note ih = Cons.IH [OF plain1 ord1]
    have app: "forEach_course (?cs @ records_of server (resolved (remove1 p (pending s)) ps))
        (subjectBin s) =
      forEach_course (records_of server (resolved (remove1 p (pending s)) ps)) (subjectBin ?s1)"
      using fe s1 by (simp add: forEach_course_append)
    from ih s1 app True show ?thesis
      by (simp add: records_of_Cons)
  qed
qed

lemma mset_concat_map:
  "mset (concat (map g xss)) = sum_mset (image_mset (\<lambda>x. mset (g x)) (mset xss))"
  by (induction xss) simp_all

lemma length_filter_records_of:
  assumes "mset ps = mset qs"
  shows "length (filter P (records_of server ps)) = length (filter P (records_of server qs))"
proof -
  have "mset (records_of server ps) = mset (records_of server qs)"
    unfolding records_of_def by (simp only: mset_concat_map assms)
  then have "size (filter_mset P (mset (records_of server ps))) =
      size (filter_mset P (mset (records_of server qs)))"
    by simp
  then show ?thesis
    by (simp only: flip: mset_filter size_mset)
qed

lemma set_records_of_perm:
  assumes "mset ps = mset qs"
  shows "set (records_of server ps) = set (records_of server qs)"
proof -
  from assms have "set ps = set qs"
    by (rule mset_eq_setD)
  then show ?thesis
    by (subst (1 2) set_records_of) simp
qed

lemma count_list_display:
  "count_list (map asString (filter Q cs)) x = length (filter (\<lambda>c. Q c \<and> asString c = x) cs)"
  by (induction cs) auto

lemma entries_present:
  "entries bin f s \<noteq> [] \<Longrightarrow>
   \<exists>obj. own bin f = Some obj \<and> props obj s = Some (entries bin f s)"
  by (auto simp: entries_def split: option.splits)

text \<open>
  A run in which the first response succeeds and no request is left awaiting its
  response: every page from 1 to \<open>total_pages\<close> was handled, in some order.
\<close>

lemma complete_run:
  assumes fin: "pending (run (First_resolved (Success d) #
        map (\<lambda>p. Page_resolved p (server p)) order)) = []"
    and ord: "\<forall>c \<in> set (records_of server [1..total_pages d]). ordinary c"
  shows "\<exists>ps. mset ps = mset [1..total_pages d] \<and>
     subjectBin (run (First_resolved (Success d) # map (\<lambda>p. Page_resolved p (server p)) order)) =
       fst (forEach_course (records_of server ps) empty_bin) \<and>
     thrown (run (First_resolved (Success d) # map (\<lambda>p. Page_resolved p (server p)) order)) = 0"
proof -
  let ?s0 = "handle (First_resolved (Success d)) fastCourseListCtrl"
  let ?ps = "resolved [1..total_pages d] order"
  note s0 = first_success_state [of d]
  have p0: "plain (subjectBin ?s0)"
    using s0 by (simp add: plain_empty_bin del: handle.simps)
  have o0: "\<forall>c \<in> set (records_of server (pending ?s0)). ordinary c"
    using s0 ord by (simp del: handle.simps)
  from pages_resolved [OF p0 o0, of order] s0 fin
  have "mset ?ps = mset [1..total_pages d]"
    and "subjectBin (run (First_resolved (Success d) #
        map (\<lambda>p. Page_resolved p (server p)) order)) =
      fst (forEach_course (records_of server ?ps) empty_bin)"
    and "thrown (run (First_resolved (Success d) #
        map (\<lambda>p. Page_resolved p (server p)) order)) = 0"
    by (simp_all add: run_def del: handle.simps)
  then show ?thesis
    by blast
qed

text \<open>
  C2, as the code has it. The first response announces \<open>total_pages d\<close> pages, \<open>server p\<close>
  is the response (success or failure) to the loop's request for page \<open>p\<close>, and the
  responses arrive in the order \<open>order\<close>, any order that leaves no request awaiting its
  response. When no course on the pages that succeed has a faculty or subject named
  \<^verbatim>\<open>hasOwnProperty\<close> or \<^verbatim>\<open>__proto__\<close>, the display string \<open>x\<close> occurs at
  \<^verbatim>\<open>subjectBin[f][s]\<close> as many times as there are course records with faculty \<open>f\<close>, subject
  \<open>s\<close> and display string \<open>x\<close> on the pages 1 to \<open>total_pages d\<close> that succeed. So when
  there is exactly one such record, both keys exist and the string is there exactly
  once.
\<close>

theorem display_string_count:
  assumes fin: "pending (run (First_resolved (Success d) #
        map (\<lambda>p. Page_resolved p (server p)) order)) = []"
    and ord: "\<forall>c \<in> set (records_of server [1..total_pages d]). ordinary c"
  shows "count_list
       (entries (subjectBin (run (First_resolved (Success d) #
          map (\<lambda>p. Page_resolved p (server p)) order))) f s) x =
     length (filter (\<lambda>c. course.faculty c = f \<and> subject c = s \<and> asString c = x)
       (records_of server [1..total_pages d])) \<and>
     (length (filter (\<lambda>c. course.faculty c = f \<and> subject c = s \<and> asString c = x)
        (records_of server [1..total_pages d])) = 1 \<longrightarrow>
      (\<exists>obj xs.
         own (subjectBin (run (First_resolved (Success d) #
           map (\<lambda>p. Page_resolved p (server p)) order))) f = Some obj \<and>
         props obj s = Some xs \<and> count_list xs x = 1))"
proof -
  let ?bin = "subjectBin (run (First_resolved (Success d) #
      map (\<lambda>p. Page_resolved p (server p)) order))"
  from complete_run [OF fin ord] obtain ps where ps: "mset ps = mset [1..total_pages d]"
    "?bin = fst (forEach_course (records_of server ps) empty_bin)"
    by blast
  from ord have "\<forall>c \<in> set (records_of server ps). ordinary c"
    by (simp only: set_records_of_perm [OF ps(1), of server])
  from forEach_course_ordinary [OF this plain_empty_bin] ps(2)
  have "entries ?bin f s =
      map asString (filter (\<lambda>c. course.faculty c = f \<and> subject c = s) (records_of server ps))"
    by (simp add: entries_empty_bin)
  then have "count_list (entries ?bin f s) x =
      length (filter (\<lambda>c. (course.faculty c = f \<and> subject c = s) \<and> asString c = x)
        (records_of server ps))"
    by (simp only: count_list_display)
  also have "\<dots> =
      length (filter (\<lambda>c. (course.faculty c = f \<and> subject c = s) \<and> asString c = x)
        (records_of server [1..total_pages d]))"
    using ps(1) by (rule length_filter_records_of)
  also have "\<dots> =
      length (filter (\<lambda>c. course.faculty c = f \<and> subject c = s \<and> asString c = x)
        (records_of server [1..total_pages d]))"
    by (simp only: conj_assoc)
  finally have count: "count_list (entries ?bin f s) x =
     length (filter (\<lambda>c. course.faculty c = f \<and> subject c = s \<and> asString c = x)
       (records_of server [1..total_pages d]))" .
  have present: "\<exists>obj xs. own ?bin f = Some obj \<and> props obj s = Some xs \<and> count_list xs x = 1"
    if one: "count_list (entries ?bin f s) x = 1"
  proof -
    from one have "entries ?bin f s \<noteq> []"
      by auto
    from entries_present [OF this] one show ?thesis
      by blast
  qed
  show ?thesis
  proof (intro conjI impI)
    show "count_list (entries ?bin f s) x =
     length (filter (\<lambda>c. course.faculty c = f \<and> subject c = s \<and> asString c = x)
       (records_of server [1..total_pages d]))"
      by (rule count)
  next
    assume "length (filter (\<lambda>c. course.faculty c = f \<and> subject c = s \<and> asString c = x)
        (records_of server [1..total_pages d])) = 1"
    with count have "count_list (entries ?bin f s) x = 1"
      by (simp only:)
    then show "\<exists>obj xs. own ?bin f = Some obj \<and> props obj s = Some xs \<and> count_list xs x = 1"
      by (rule present)
  qed
qed

theorem display_string_count_witness:
  "pending (run (First_resolved (Success \<lparr>objects = [listed_cmput_101], total_pages = 3\<rparr>) #
      map (\<lambda>p. Page_resolved p (three_pages p)) [3, 2, 1])) = [] \<and>
   count_list (entries (subjectBin
      (run (First_resolved (Success \<lparr>objects = [listed_cmput_101], total_pages = 3\<rparr>) #
        map (\<lambda>p. Page_resolved p (three_pages p)) [3, 2, 1]))) ''Science'' ''CMPUT'')
      ''CMPUT 101'' = 1 \<and>
   (\<exists>obj xs.
      own (subjectBin
        (run (First_resolved (Success \<lparr>objects = [listed_cmput_101], total_pages = 3\<rparr>) #
          map (\<lambda>p. Page_resolved p (three_pages p)) [3, 2, 1]))) ''Science'' = Some obj \<and>
      props obj ''CMPUT'' = Some xs \<and> count_list xs ''CMPUT 101'' = 1)"
proof -
  let ?d = "\<lparr>objects = [listed_cmput_101], total_pages = 3\<rparr>"
  have p0: "pending (handle (First_resolved (Success ?d)) fastCourseListCtrl) = [1, 2, 3]"
    using first_success_state [of ?d] by (simp add: upto.simps del: handle.simps)
  have h1: "pending (run (First_resolved (Success ?d) #
      map (\<lambda>p. Page_resolved p (three_pages p)) [3, 2, 1])) = []"
    using p0 by (simp add: run_def page_success_def page_error_def split_beta del: handle.simps)
       (simp add: page_success_def page_error_def split_beta)
  have h2: "\<forall>c \<in> set (records_of three_pages [1..total_pages ?d]). ordinary c"
    by (simp add: records_of_def upto.simps ordinary_def ordinary_key_def)
  have "length (filter (\<lambda>c. course.faculty c = ''Science'' \<and> subject c = ''CMPUT'' \<and>
      asString c = ''CMPUT 101'') (records_of three_pages [1..total_pages ?d])) = 1"
    by (simp add: records_of_def upto.simps)
  with display_string_count [OF h1 h2, of "''Science''" "''CMPUT''" "''CMPUT 101''"] h1
  show ?thesis
    by simp
qed

text \<open>
  C2 as stated fails, in two ways. On the page holding a course of the faculty
  \<^verbatim>\<open>hasOwnProperty\<close> and then CMPUT 101, the first course hides the method, the callback
  throws at CMPUT 101, and the faculty Science is never created: CMPUT 101 occurs once on
  the page and not at all in the bin. On the page holding two distinct objects with the
  same faculty, subject and display string, each occurs once on the page and the
  display string is twice in the bin.
\<close>

theorem course_not_once:
  "count_list [listed_odd, listed_cmput_101] listed_cmput_101 = 1 \<and>
   pending (run [First_resolved (Success \<lparr>objects = [listed_odd, listed_cmput_101], total_pages = 1\<rparr>),
      Page_resolved 1 (Success \<lparr>objects = [listed_odd, listed_cmput_101], total_pages = 1\<rparr>)]) = [] \<and>
   own (subjectBin
     (run [First_resolved (Success \<lparr>objects = [listed_odd, listed_cmput_101], total_pages = 1\<rparr>),
      Page_resolved 1 (Success \<lparr>objects = [listed_odd, listed_cmput_101], total_pages = 1\<rparr>)]))
      ''Science'' = None \<and>
   thrown (run [First_resolved (Success \<lparr>objects = [listed_odd, listed_cmput_101], total_pages = 1\<rparr>),
      Page_resolved 1 (Success \<lparr>objects = [listed_odd, listed_cmput_101], total_pages = 1\<rparr>)]) = 1 \<and>
   count_list [listed_cmput_101, listed_cmput_101_twin] listed_cmput_101 = 1 \<and>
   pending (run [First_resolved
        (Success \<lparr>objects = [listed_cmput_101, listed_cmput_101_twin], total_pages = 1\<rparr>),
      Page_resolved 1
        (Success \<lparr>objects = [listed_cmput_101, listed_cmput_101_twin], total_pages = 1\<rparr>)]) = [] \<and>
   entries (subjectBin (run [First_resolved
        (Success \<lparr>objects = [listed_cmput_101, listed_cmput_101_twin], total_pages = 1\<rparr>),
      Page_resolved 1
        (Success \<lparr>objects = [listed_cmput_101, listed_cmput_101_twin], total_pages = 1\<rparr>)]))
      ''Science'' ''CMPUT'' = [''CMPUT 101'', ''CMPUT 101'']"
proof -
  let ?odd = "\<lparr>objects = [listed_odd, listed_cmput_101], total_pages = 1\<rparr>"
  let ?twin = "\<lparr>objects = [listed_cmput_101, listed_cmput_101_twin], total_pages = 1\<rparr>"
  have fe_odd: "forEach_course [listed_odd, listed_cmput_101] empty_bin =
      (\<lparr>own = [''hasOwnProperty'' \<mapsto> \<lparr>props = [''HOP'' \<mapsto> [''HOP 100'']], proto = None\<rparr>],
        bin_proto = None\<rparr>, True)"
    by (simp add: insert_course_def bin_hasOwnProperty_def bin_set_def obj_set_def
        empty_object_def empty_bin_def)
  have fe_twin: "forEach_course [listed_cmput_101, listed_cmput_101_twin] empty_bin =
      (\<lparr>own = [''Science'' \<mapsto> \<lparr>props = [''CMPUT'' \<mapsto> [''CMPUT 101'', ''CMPUT 101'']],
         proto = None\<rparr>], bin_proto = None\<rparr>, False)"
    by (simp add: insert_course_def bin_hasOwnProperty_def obj_hasOwnProperty_def bin_set_def
        obj_set_def empty_object_def empty_bin_def)
  have odd: "pending (run [First_resolved (Success ?odd), Page_resolved 1 (Success ?odd)]) = []"
    "own (subjectBin (run [First_resolved (Success ?odd), Page_resolved 1 (Success ?odd)]))
      ''Science'' = None"
    "thrown (run [First_resolved (Success ?odd), Page_resolved 1 (Success ?odd)]) = 1"
    using first_success_state [of ?odd] fe_odd
    by (simp_all add: run_def upto.simps page_success_def del: handle.simps(1))
  have twin: "pending (run [First_resolved (Success ?twin), Page_resolved 1 (Success ?twin)]) = []"
    "entries (subjectBin (run [First_resolved (Success ?twin), Page_resolved 1 (Success ?twin)]))
      ''Science'' ''CMPUT'' = [''CMPUT 101'', ''CMPUT 101'']"
    using first_success_state [of ?twin] fe_twin
    by (simp_all add: run_def upto.simps page_success_def entries_def del: handle.simps(1))
  from odd twin show ?thesis
    by simp
qed

lemma mset_single: "mset xs = mset [a] \<Longrightarrow> xs = [a]"
  by (cases xs) auto

text \<open>
  C9: every response is \<^verbatim>\<open>{objects: [{faculty: "Science", subject: "CMPUT", asString:
  "CMPUT 101"}], total_pages: 1}\<close>. The first response makes the aggregator request
  page 1 again and leaves the bin empty; when the response to that request arrives
  nothing is awaited any more and the grouped structure is exactly
  \<^verbatim>\<open>{"Science": {"CMPUT": ["CMPUT 101"]}}\<close>. The same holds for every order of arriving
  responses that leaves no request awaiting its response.
\<close>

theorem single_page_scenario:
  "requested (run [First_resolved (Success \<lparr>objects = [listed_cmput_101], total_pages = 1\<rparr>)]) =
     [1, 1] \<and>
   pending (run [First_resolved (Success \<lparr>objects = [listed_cmput_101], total_pages = 1\<rparr>)]) =
     [1] \<and>
   subjectBin (run [First_resolved (Success \<lparr>objects = [listed_cmput_101], total_pages = 1\<rparr>)]) =
     empty_bin \<and>
   pending (run [First_resolved (Success \<lparr>objects = [listed_cmput_101], total_pages = 1\<rparr>),
     Page_resolved 1 (Success \<lparr>objects = [listed_cmput_101], total_pages = 1\<rparr>)]) = [] \<and>
   subjectBin (run [First_resolved (Success \<lparr>objects = [listed_cmput_101], total_pages = 1\<rparr>),
     Page_resolved 1 (Success \<lparr>objects = [listed_cmput_101], total_pages = 1\<rparr>)]) =
     science_cmput_101 \<and>
   (pending (run (First_resolved (Success \<lparr>objects = [listed_cmput_101], total_pages = 1\<rparr>) #
       map (\<lambda>p. Page_resolved p (Success \<lparr>objects = [listed_cmput_101], total_pages = 1\<rparr>))
         order)) = [] \<longrightarrow>
    subjectBin (run (First_resolved (Success \<lparr>objects = [listed_cmput_101], total_pages = 1\<rparr>) #
       map (\<lambda>p. Page_resolved p (Success \<lparr>objects = [listed_cmput_101], total_pages = 1\<rparr>))
         order)) = science_cmput_101)"
proof -
  let ?r = "\<lparr>objects = [listed_cmput_101], total_pages = 1\<rparr>"
  let ?server = "\<lambda>p :: int. Success ?r"
  have fe: "forEach_course [listed_cmput_101] empty_bin = (science_cmput_101, False)"
    by (simp add: insert_course_def bin_hasOwnProperty_def bin_set_def obj_set_def
        empty_object_def empty_bin_def)
  note s0 = first_success_state [of ?r]
  have a: "requested (run [First_resolved (Success ?r)]) = [1, 1]"
    "pending (run [First_resolved (Success ?r)]) = [1]"
    "subjectBin (run [First_resolved (Success ?r)]) = empty_bin"
    using s0 by (simp_all add: run_def upto.simps del: handle.simps)
  have b: "pending (run [First_resolved (Success ?r), Page_resolved 1 (Success ?r)]) = []"
    "subjectBin (run [First_resolved (Success ?r), Page_resolved 1 (Success ?r)]) =
      science_cmput_101"
    using s0 fe by (simp_all add: run_def upto.simps page_success_def del: handle.simps(1))
  have c: "subjectBin (run (First_resolved (Success ?r) #
       map (\<lambda>p. Page_resolved p (Success ?r)) order)) = science_cmput_101"
    if fin: "pending (run (First_resolved (Success ?r) #
       map (\<lambda>p. Page_resolved p (Success ?r)) order)) = []"
  proof -
    have ord: "\<forall>c \<in> set (records_of ?server [1..total_pages ?r]). ordinary c"
      by (simp add: records_of_def upto.simps ordinary_def ordinary_key_def)
    from complete_run [of ?r ?server order, OF fin ord]
    obtain ps where ps: "mset ps = mset [1..total_pages ?r]"
      "subjectBin (run (First_resolved (Success ?r) #
         map (\<lambda>p. Page_resolved p (Success ?r)) order)) =
       fst (forEach_course (records_of ?server ps) empty_bin)"
      by blast
    from ps(1) have "ps = [1]"
      by (simp add: upto.simps mset_single)
    with ps(2) fe show ?thesis
      by (simp add: records_of_def)
  qed
  from a b c show ?thesis
    by blast
qed

theorem single_page_scenario_witness:
  "pending (run (First_resolved (Success \<lparr>objects = [listed_cmput_101], total_pages = 1\<rparr>) #
       map (\<lambda>p. Page_resolved p (Success \<lparr>objects = [listed_cmput_101], total_pages = 1\<rparr>))
         [2, 1, 1])) = [] \<and>
   subjectBin (run (First_resolved (Success \<lparr>objects = [listed_cmput_101], total_pages = 1\<rparr>) #
       map (\<lambda>p. Page_resolved p (Success \<lparr>objects = [listed_cmput_101], total_pages = 1\<rparr>))
         [2, 1, 1])) = science_cmput_101"
proof -
  let ?r = "\<lparr>objects = [listed_cmput_101], total_pages = 1\<rparr>"
  have h: "pending (run (First_resolved (Success ?r) #
       map (\<lambda>p. Page_resolved p (Success ?r)) [2, 1, 1])) = []"
    using first_success_state [of ?r]
    by (simp add: run_def upto.simps page_success_def split_beta del: handle.simps(1))
  with single_page_scenario [of "[2, 1, 1]"] show ?thesis
    by blast
qed

section \<open>The filter watcher\<close>

lemma advance_to_quiet:
  "timers s = [] \<Longrightarrow> advance_to t s = s\<lparr>now := max (now s) t\<rparr>"
  by (simp add: advance_to_def)

lemma advance_to_pending:
  "timers s = [(h, d)] \<Longrightarrow>
   advance_to t s =
     (if d \<le> t
      then s\<lparr>timers := [], now := max d t, filterText := tempFilterText s,
             published := published s @ [(d, tempFilterText s)]\<rparr>
      else s\<lparr>now := max (now s) t\<rparr>)"
  by (simp add: advance_to_def timer_callback_def)

lemma watch_searchBox_quiet:
  "timers s = [] \<Longrightarrow>
   watch_searchBox v s =
     s\<lparr>tempFilterText := v, timers := [(next_timer s, now s + 500)],
       next_timer := Suc (next_timer s), filterTextTimeout := Some (next_timer s)\<rparr>"
  by (cases "filterTextTimeout s")
     (simp_all add: watch_searchBox_def timeout_cancel_def timeout_set_def)

lemma watch_searchBox_pending:
  "timers s = [(h, d)] \<Longrightarrow> filterTextTimeout s = Some h \<Longrightarrow>
   watch_searchBox v s =
     s\<lparr>tempFilterText := v, timers := [(next_timer s, now s + 500)],
       next_timer := Suc (next_timer s), filterTextTimeout := Some (next_timer s)\<rparr>"
  by (simp add: watch_searchBox_def timeout_cancel_def timeout_set_def)

text \<open>
  Between two changes the watcher is in the state pending: the only timer is the one
  \<^verbatim>\<open>filterTextTimeout\<close> names, due one delay after the last change. A further change
  keeps it there, and publishes the last value first when the delay had elapsed.
\<close>

lemma input_step:
  assumes "timers s = [(h, t + 500)]" "filterTextTimeout s = Some h"
    "tempFilterText s = v" "now s = t" "t \<le> t'"
  shows "\<exists>h'. timers (deb_handle (Input t' v') s) = [(h', t' + 500)] \<and>
     filterTextTimeout (deb_handle (Input t' v') s) = Some h' \<and>
     tempFilterText (deb_handle (Input t' v') s) = v' \<and>
     now (deb_handle (Input t' v') s) = t' \<and>
     published (deb_handle (Input t' v') s) =
       published s @ (if t + 500 \<le> t' then [(t + 500, v)] else [])"
proof (cases "t + 500 \<le> t'")
  case True
  with assms have "advance_to t' s =
      s\<lparr>timers := [], now := t', filterText := v, published := published s @ [(t + 500, v)]\<rparr>"
    by (simp add: advance_to_pending max_def)
  with True show ?thesis
    by (simp add: watch_searchBox_quiet)
next
  case False
  with assms have "advance_to t' s = s\<lparr>now := t'\<rparr>"
    by (simp add: advance_to_pending max_def)
  with False assms show ?thesis
    by (simp add: watch_searchBox_pending)
qed

lemma published_pending:
  assumes "timers s = [(h, t + 500)]" "filterTextTimeout s = Some h"
    "tempFilterText s = v" "now s = t" "sorted (t # map fst ins)"
  shows "published (fold deb_handle (map (\<lambda>(t, v). Input t v) ins @ [Wait T]) s) =
     published s @ spec_published (t, v) ins T"
  using assms
proof (induction ins arbitrary: s h t v)
  case Nil
  then show ?case
    by (simp add: advance_to_pending)
next
  case (Cons x ins)
  obtain t' v' where x: "x = (t', v')"
    by (cases x)
  from Cons.prems x have le: "t \<le> t'" and srt: "sorted (t' # map fst ins)"
    by simp_all
  from input_step [OF Cons.prems(1-4) le, of v']
  obtain h' where step: "timers (deb_handle (Input t' v') s) = [(h', t' + 500)]"
    "filterTextTimeout (deb_handle (Input t' v') s) = Some h'"
    "tempFilterText (deb_handle (Input t' v') s) = v'"
    "now (deb_handle (Input t' v') s) = t'"
    "published (deb_handle (Input t' v') s) =
       published s @ (if t + 500 \<le> t' then [(t + 500, v)] else [])"
    by blast
  from Cons.IH [OF step(1-4) srt] step(5) x show ?case
    by simp
qed

lemma first_input:
  "timers (deb_handle (Input t v) deb_init) = [(0, t + 500)] \<and>
   filterTextTimeout (deb_handle (Input t v) deb_init) = Some 0 \<and>
   tempFilterText (deb_handle (Input t v) deb_init) = v \<and>
   now (deb_handle (Input t v) deb_init) = t \<and>
   published (deb_handle (Input t v) deb_init) = []"
  by (simp add: advance_to_quiet watch_searchBox_quiet deb_init_def)

lemma published_deb_run:
  assumes "sorted (t # map fst rest)"
  shows "published (deb_run (map (\<lambda>(t, v). Input t v) ((t, v) # rest) @ [Wait T])) =
     spec_published (t, v) rest T"
proof -
  note f = first_input [of t v]
  from f have "published (fold deb_handle (map (\<lambda>(t, v). Input t v) rest @ [Wait T])
       (deb_handle (Input t v) deb_init)) =
     published (deb_handle (Input t v) deb_init) @ spec_published (t, v) rest T"
    using assms by (intro published_pending [where h = 0]) simp_all
  with f show ?thesis
    by (simp add: deb_run_def)
qed

text \<open>When every change comes less than one delay after the one before, only the last
  value is owed, one delay after the last change.\<close>

lemma spec_published_burst:
  "successively (\<lambda>x y. fst y < fst x + 500) ((t, v) # rest) \<Longrightarrow>
   spec_published (t, v) rest T =
     (if fst (last ((t, v) # rest)) + 500 \<le> T
      then [(fst (last ((t, v) # rest)) + 500, snd (last ((t, v) # rest)))] else [])"
  by (induction rest arbitrary: t v) auto

lemma two_changes:
  "timers (deb_run [Input 0 a]) = [(0, 500)]"
  "timers (deb_run [Input 0 a, Input 100 b]) = [(1, 600)]"
  "published (deb_run [Input 0 a, Input 100 b, Wait 500]) = []"
  "published (deb_run [Input 0 a, Input 100 b, Wait 600]) = [(600, b)]"
  "filterText (deb_run [Input 0 a, Input 100 b, Wait 600]) = b"
  by (simp_all add: deb_run_def advance_to_def watch_searchBox_def timeout_cancel_def
      timeout_set_def timer_callback_def deb_init_def)

text \<open>
  C5, on the logical clock of the timer service. The input changes to \<open>a\<close> at 0 ms and to
  \<open>b\<close> at 100 ms: the timer of the first change (due at 500) is cancelled and only the
  timer of the second (due at 600) is pending; up to 500 ms nothing is published; at
  600 ms \<open>b\<close> is published, and whatever time passes that stays the only publish. In
  general, for changes at times in ascending order, the publishes made by time \<open>T\<close> are
  those of \<open>spec_published\<close>: a value is published, one delay after its change, exactly
  when no further change came before that; so for changes that each come less than one
  delay after the one before, only the last value is ever published.
\<close>

theorem debounce_publishes_last_value:
  "timers (deb_run [Input 0 a]) = [(0, 500)] \<and>
   timers (deb_run [Input 0 a, Input 100 b]) = [(1, 600)] \<and>
   published (deb_run [Input 0 a, Input 100 b, Wait 500]) = [] \<and>
   published (deb_run [Input 0 a, Input 100 b, Wait 600]) = [(600, b)] \<and>
   filterText (deb_run [Input 0 a, Input 100 b, Wait 600]) = b \<and>
   published (deb_run [Input 0 a, Input 100 b, Wait T]) =
     (if 600 \<le> T then [(600, b)] else []) \<and>
   (sorted (t # map fst rest) \<longrightarrow>
      published (deb_run (map (\<lambda>(t, v). Input t v) ((t, v) # rest) @ [Wait T])) =
        spec_published (t, v) rest T) \<and>
   (sorted (t # map fst rest) \<and>
    successively (\<lambda>x y. fst y < fst x + 500) ((t, v) # rest) \<longrightarrow>
      published (deb_run (map (\<lambda>(t, v). Input t v) ((t, v) # rest) @ [Wait T])) =
        (if fst (last ((t, v) # rest)) + 500 \<le> T
         then [(fst (last ((t, v) # rest)) + 500, snd (last ((t, v) # rest)))] else []))"
proof -
  have "published (deb_run (map (\<lambda>(t, v). Input t v) ((0, a) # [(100, b)]) @ [Wait T])) =
      spec_published (0, a) [(100, b)] T"
    by (rule published_deb_run) simp
  then have scenario: "published (deb_run [Input 0 a, Input 100 b, Wait T]) =
      (if 600 \<le> T then [(600, b)] else [])"
    by simp
  have general: "sorted (t # map fst rest) \<longrightarrow>
      published (deb_run (map (\<lambda>(t, v). Input t v) ((t, v) # rest) @ [Wait T])) =
        spec_published (t, v) rest T"
    using published_deb_run by blast
  have burst: "sorted (t # map fst rest) \<and>
    successively (\<lambda>x y. fst y < fst x + 500) ((t, v) # rest) \<longrightarrow>
      published (deb_run (map (\<lambda>(t, v). Input t v) ((t, v) # rest) @ [Wait T])) =
        (if fst (last ((t, v) # rest)) + 500 \<le> T
         then [(fst (last ((t, v) # rest)) + 500, snd (last ((t, v) # rest)))] else [])"
    using published_deb_run [of t rest v T] spec_published_burst [of t v rest T] by presburger
  from two_changes scenario general burst show ?thesis
    by blast
qed

theorem debounce_publishes_last_value_witness:
  "sorted ((0::nat) # map fst [(100::nat, Text ''cm''), (300, Text ''cmp'')]) \<and>
   successively (\<lambda>x y. fst y < fst x + 500)
     [(0::nat, Text ''c''), (100, Text ''cm''), (300, Text ''cmp'')] \<and>
   published (deb_run [Input 0 (Text ''c''), Input 100 (Text ''cm''),
     Input 300 (Text ''cmp''), Wait 1000]) = [(800, Text ''cmp'')]"
proof -
  have h1: "sorted ((0::nat) # map fst [(100::nat, Text ''cm''), (300, Text ''cmp'')])"
    by simp
  have h2: "successively (\<lambda>x y. fst y < fst x + 500)
      [(0::nat, Text ''c''), (100, Text ''cm''), (300, Text ''cmp'')]"
    by simp
  from debounce_publishes_last_value
    [where t = 0 and rest = "[(100, Text ''cm''), (300, Text ''cmp'')]" and v = "Text ''c''"
      and T = 1000] h1 h2
  show ?thesis
    by simp
qed

section \<open>Merging faculty groups\<close>

lemma push_subjects_throws: "xs \<noteq> [] \<Longrightarrow> push_subjects xs obj = Inl TypeError"
  by (cases xs) (simp_all add: entry_push_def)

lemma insert_existing_new:
  "\<forall>obj \<in> set bin. SFacultyGroup.faculty obj \<noteq> SFacultyGroup.faculty g \<Longrightarrow>
   insert_existing g bin = Inr (bin, False)"
  by (induction bin) simp_all

lemma insert_existing_throws:
  "obj \<in> set bin \<Longrightarrow> SFacultyGroup.faculty obj = SFacultyGroup.faculty g \<Longrightarrow>
   subjects g \<noteq> [] \<Longrightarrow> insert_existing g bin = Inl TypeError"
  by (induction bin) (auto simp: push_subjects_throws)

lemma fold_snoc: "fold (\<lambda>x acc. acc @ [x]) xs ys = ys @ xs"
  by (induction xs arbitrary: ys) simp_all

text \<open>
  A group with a new faculty name is appended as one entry holding exactly the group's
  subjects.
\<close>

lemma insertIntoSubjectBin_new:
  "\<forall>obj \<in> set bin. SFacultyGroup.faculty obj \<noteq> SFacultyGroup.faculty g \<Longrightarrow>
   insertIntoSubjectBin g bin =
     Inr (bin @ [\<lparr>SFacultyGroup.faculty = SFacultyGroup.faculty g, subjects = subjects g\<rparr>])"
  by (simp add: insertIntoSubjectBin_def insert_existing_new fold_snoc)

text \<open>
  A group that brings subjects for a faculty already in the bin makes
  \<^verbatim>\<open>insertIntoSubjectBin\<close> throw: nothing is appended.
\<close>

lemma insertIntoSubjectBin_existing:
  "obj \<in> set bin \<Longrightarrow> SFacultyGroup.faculty obj = SFacultyGroup.faculty g \<Longrightarrow>
   subjects g \<noteq> [] \<Longrightarrow> insertIntoSubjectBin g bin = Inl TypeError"
  by (simp add: insertIntoSubjectBin_def insert_existing_throws)

text \<open>
  C4, at the bin \<^verbatim>\<open>[{faculty: "Science", subjects: ["CMPUT"]}]\<close> and the group
  \<^verbatim>\<open>{faculty: "Science", subjects: ["MATH"]}\<close>: the code does not append the subject to the
  existing entry, it throws a TypeError.
\<close>

theorem existing_faculty_push_throws:
  "insertIntoSubjectBin \<lparr>SFacultyGroup.faculty = ''Science'', subjects = [''MATH'']\<rparr>
     [\<lparr>SFacultyGroup.faculty = ''Science'', subjects = [''CMPUT'']\<rparr>] = Inl TypeError"
  by (simp add: insertIntoSubjectBin_def entry_push_def)

section \<open>Sorting by course number\<close>

lemma string_less_lexord:
  "string_less xs ys \<longleftrightarrow> (xs, ys) \<in> lexord {(c, d). (of_char c :: nat) < of_char d}"
proof (induction xs ys rule: string_less.induct)
  case (4 x xs y ys)
  show ?case
  proof (cases "x = y")
    case True
    with 4 show ?thesis
      by simp
  next
    case False
    then have "(of_char x :: nat) \<noteq> of_char y"
      by simp
    with False show ?thesis
      by auto
  qed
qed simp_all

text \<open>The match is the first run of digits: what comes before holds no digit, and what
  comes after does not start with one.\<close>

lemma match_digits_run:
  assumes "s = p @ d @ r" "\<forall>c \<in> set p. \<not> is_digit c" "d \<noteq> []" "\<forall>c \<in> set d. is_digit c"
    "takeWhile is_digit r = []"
  shows "match_digits s = Match [d]"
proof -
  from assms(3) obtain d0 d' where d: "d = d0 # d'"
    by (cases d) auto
  with assms(4) have d0: "is_digit d0"
    by simp
  from assms(2) have "dropWhile (\<lambda>c. \<not> is_digit c) (p @ d @ r) =
      dropWhile (\<lambda>c. \<not> is_digit c) (d @ r)"
    by (simp add: dropWhile_append2)
  with d d0 have drop: "dropWhile (\<lambda>c. \<not> is_digit c) s = d0 # d' @ r"
    using assms(1) by simp
  from assms(4,5) have "takeWhile is_digit (d @ r) = d"
    by (simp add: takeWhile_append2)
  with d drop show ?thesis
    by (simp add: match_digits_def)
qed

text \<open>
  C1: when the first runs of digits of \<^verbatim>\<open>a.asString\<close> and \<^verbatim>\<open>b.asString\<close> are \<open>da\<close> and
  \<open>db\<close>, \<^verbatim>\<open>compareByCourseNumber\<close> returns -1, 1 or 0 as \<open>da\<close> is before, after or equal
  to \<open>db\<close> in the lexicographic order of their characters (by character code), not the
  order of the numbers: it puts "CMPUT 2" after "CMPUT 10" although 2 is less than 10,
  and sorting the two with it yields "CMPUT 10", "CMPUT 2" from either order.
\<close>

theorem compareByCourseNumber_lexicographic:
  assumes "asString a = pa @ da @ ra" "\<forall>c \<in> set pa. \<not> is_digit c" "da \<noteq> []"
    "\<forall>c \<in> set da. is_digit c" "takeWhile is_digit ra = []"
    and "asString b = pb @ db @ rb" "\<forall>c \<in> set pb. \<not> is_digit c" "db \<noteq> []"
    "\<forall>c \<in> set db. is_digit c" "takeWhile is_digit rb = []"
  shows "compareByCourseNumber a b =
     (if (da, db) \<in> lexord {(c, d). (of_char c :: nat) < of_char d} then - 1
      else if (db, da) \<in> lexord {(c, d). (of_char c :: nat) < of_char d} then 1
      else 0) \<and>
     compareByCourseNumber cmput_2 cmput_10 = 1 \<and>
     digits_value ''2'' < digits_value ''10'' \<and>
     array_sort compareByCourseNumber [cmput_2, cmput_10] = [cmput_10, cmput_2] \<and>
     array_sort compareByCourseNumber [cmput_10, cmput_2] = [cmput_10, cmput_2]"
proof -
  have ma: "match_digits (asString a) = Match [da]"
    using assms(1-5) by (rule match_digits_run)
  have mb: "match_digits (asString b) = Match [db]"
    using assms(6-10) by (rule match_digits_run)
  have general: "compareByCourseNumber a b =
     (if (da, db) \<in> lexord {(c, d). (of_char c :: nat) < of_char d} then - 1
      else if (db, da) \<in> lexord {(c, d). (of_char c :: nat) < of_char d} then 1
      else 0)"
    by (simp add: compareByCourseNumber_def ma mb string_less_lexord)
  have m2: "match_digits ''CMPUT 2'' = Match [''2'']"
    by (simp add: match_digits_def is_digit_def)
  have m10: "match_digits ''CMPUT 10'' = Match [''10'']"
    by (simp add: match_digits_def is_digit_def)
  have c1: "compareByCourseNumber cmput_2 cmput_10 = 1"
    by (simp add: compareByCourseNumber_def m2 m10)
  have c2: "compareByCourseNumber cmput_10 cmput_2 = - 1"
    by (simp add: compareByCourseNumber_def m2 m10)
  have v: "digits_value ''2'' < digits_value ''10''"
    by (simp add: digits_value_def)
  have s1: "array_sort compareByCourseNumber [cmput_2, cmput_10] = [cmput_10, cmput_2]"
    by (simp add: array_sort_def c1)
  have s2: "array_sort compareByCourseNumber [cmput_10, cmput_2] = [cmput_10, cmput_2]"
    by (simp add: array_sort_def c2)
  from general c1 v s1 s2 show ?thesis
    by simp
qed

theorem compareByCourseNumber_lexicographic_witness:
  "compareByCourseNumber cmput_2 cmput_10 =
     (if (''2'', ''10'') \<in> lexord {(c, d). (of_char c :: nat) < of_char d} then - 1
      else if (''10'', ''2'') \<in> lexord {(c, d). (of_char c :: nat) < of_char d} then 1
      else 0) \<and>
   (''10'', ''2'') \<in> lexord {(c, d). (of_char c :: nat) < of_char d}"
proof -
  have "asString cmput_2 = ''CMPUT '' @ ''2'' @ []" "asString cmput_10 = ''CMPUT '' @ ''10'' @ []"
    by simp_all
  moreover have "\<forall>c \<in> set ''CMPUT ''. \<not> is_digit c" "\<forall>c \<in> set ''2''. is_digit c"
    "\<forall>c \<in> set ''10''. is_digit c"
    by (simp_all add: is_digit_def)
  ultimately have "compareByCourseNumber cmput_2 cmput_10 =
     (if (''2'', ''10'') \<in> lexord {(c, d). (of_char c :: nat) < of_char d} then - 1
      else if (''10'', ''2'') \<in> lexord {(c, d). (of_char c :: nat) < of_char d} then 1
      else 0)"
    using compareByCourseNumber_lexicographic
      [of cmput_2 "''CMPUT ''" "''2''" "[]" cmput_10 "''CMPUT ''" "''10''" "[]"]
    by simp
  moreover have "(''10'', ''2'') \<in> lexord {(c, d). (of_char c :: nat) < of_char d}"
    by simp
  ultimately show ?thesis
    by blast
qed

section \<open>Descriptions\<close>

text \<open>
  C6, as the code has it: when the id is in the description cache, \<^verbatim>\<open>loadMore\<close> makes no
  request and changes nothing. The cache is filled only when a request succeeds: two
  calls for an absent id make one request when the first request's success arrives
  before the second call, and two requests when the second call comes before the
  response or after a failure.
\<close>

theorem loadMore_requests:
  "(description s i \<noteq> None \<longrightarrow> loadMore i s = s) \<and>
   (description s i = None \<longrightarrow>
      detail_requests
        (accordion_run [Load_more i, Details_resolved i (Success r), Load_more i] s) =
        detail_requests s @ [i] \<and>
      detail_requests (accordion_run [Load_more i, Load_more i] s) =
        detail_requests s @ [i, i] \<and>
      detail_requests (accordion_run [Load_more i, Details_resolved i Error, Load_more i] s) =
        detail_requests s @ [i, i])"
  by (simp add: accordion_run_def loadMore_def details_success_def details_error_def)

theorem loadMore_requests_witness:
  "description (details_success 7 \<lparr>courseDescription = ''Intro''\<rparr> accordionCtrl) 7 \<noteq> None \<and>
   loadMore 7 (details_success 7 \<lparr>courseDescription = ''Intro''\<rparr> accordionCtrl) =
     details_success 7 \<lparr>courseDescription = ''Intro''\<rparr> accordionCtrl \<and>
   description accordionCtrl 7 = None \<and>
   detail_requests (accordion_run [Load_more 7,
      Details_resolved 7 (Success \<lparr>courseDescription = ''Intro''\<rparr>), Load_more 7]
      accordionCtrl) = [7] \<and>
   detail_requests (accordion_run [Load_more 7, Load_more 7] accordionCtrl) = [7, 7]"
proof -
  have h1: "description (details_success 7 \<lparr>courseDescription = ''Intro''\<rparr> accordionCtrl) 7 \<noteq>
      None"
    by (simp add: details_success_def)
  have h2: "description accordionCtrl 7 = None"
    by (simp add: accordionCtrl_def)
  from loadMore_requests [of "details_success 7 \<lparr>courseDescription = ''Intro''\<rparr> accordionCtrl" 7]
    loadMore_requests [of accordionCtrl 7 "\<lparr>courseDescription = ''Intro''\<rparr>"] h1 h2
  show ?thesis
    by (simp add: accordionCtrl_def)
qed

text \<open>
  C6 as stated fails: two calls of \<^verbatim>\<open>loadMore(7)\<close> in sequence, from the initial state,
  make two requests.
\<close>

theorem loadMore_twice_two_requests:
  "detail_requests (accordion_run [Load_more 7, Load_more 7] accordionCtrl) = [7, 7] \<and>
   length (detail_requests (accordion_run [Load_more 7, Load_more 7] accordionCtrl)) \<noteq> 1"
  by (simp add: accordion_run_def loadMore_def accordionCtrl_def)

text \<open>
  C8: when the request for an id absent from the cache fails, the cache is unchanged, an
  alert is shown, the id is still absent, and the next call of \<^verbatim>\<open>loadMore\<close> for it makes
  a request again.
\<close>

theorem failed_load_leaves_cache:
  assumes "description s i = None"
  shows "description (accordion_run [Load_more i, Details_resolved i Error] s) = description s \<and>
    description (accordion_run [Load_more i, Details_resolved i Error] s) i = None \<and>
    window_alerts (accordion_run [Load_more i, Details_resolved i Error] s) =
      window_alerts s + 1 \<and>
    detail_requests (accordion_run [Load_more i, Details_resolved i Error] s) =
      detail_requests s @ [i] \<and>
    detail_requests (accordion_run [Load_more i, Details_resolved i Error, Load_more i] s) =
      detail_requests s @ [i, i]"
  using assms by (simp add: accordion_run_def loadMore_def details_error_def)

theorem failed_load_leaves_cache_witness:
  "description accordionCtrl 7 = None \<and>
   description (accordion_run [Load_more 7, Details_resolved 7 Error] accordionCtrl) =
     Map.empty \<and>
   detail_requests
     (accordion_run [Load_more 7, Details_resolved 7 Error, Load_more 7] accordionCtrl) = [7, 7]"
proof -
  have h: "description accordionCtrl 7 = None"
    by (simp add: accordionCtrl_def)
  from failed_load_leaves_cache [OF h] h show ?thesis
    by (simp add: accordionCtrl_def)
qed

section \<open>The schedule\<close>

lemma indexOf_lower: "- 1 \<le> indexOf xs x"
  by (induction xs) (simp_all add: Let_def)

lemma indexOf_absent: "indexOf xs x = - 1 \<longleftrightarrow> x \<notin> set xs"
proof (induction xs)
  case Nil
  show ?case by simp
next
  case (Cons y ys)
  have "indexOf ys x + 1 \<noteq> - 1"
    using indexOf_lower [of ys x] by arith
  with Cons show ?case
    by (simp add: Let_def)
qed

lemma addToSchedule_present: "c \<in> set (addedCourses s) \<Longrightarrow> addToSchedule c s = s"
  by (simp add: addToSchedule_def indexOf_absent)

lemma addToSchedule_absent:
  "c \<notin> set (addedCourses s) \<Longrightarrow>
   addToSchedule c s =
     s\<lparr>addedCourses := addedCourses s @ [c], shoppingCartSize := shoppingCartSize s + 1\<rparr>"
  by (simp add: addToSchedule_def indexOf_absent)

text \<open>
  C7, as the code has it: membership is tested by \<^verbatim>\<open>===\<close>, the identity of the course
  object. When the object itself is in the list, \<^verbatim>\<open>addToSchedule\<close> changes nothing;
  otherwise it appends the object and increments the counter, whatever the contents of
  the objects already there. Adding the same object twice from the initial state yields
  a list of length 1 and the counter 1.
\<close>

theorem addToSchedule_by_identity:
  "(c \<in> set (addedCourses s) \<longrightarrow> addToSchedule c s = s) \<and>
   (c \<notin> set (addedCourses s) \<longrightarrow>
      addedCourses (addToSchedule c s) = addedCourses s @ [c] \<and>
      shoppingCartSize (addToSchedule c s) = shoppingCartSize s + 1) \<and>
   addedCourses (addToSchedule c (addToSchedule c accordionCtrl)) = [c] \<and>
   shoppingCartSize (addToSchedule c (addToSchedule c accordionCtrl)) = 1"
proof -
  have "addToSchedule c accordionCtrl =
      accordionCtrl\<lparr>addedCourses := [c], shoppingCartSize := 1\<rparr>"
    by (simp add: addToSchedule_absent accordionCtrl_def)
  moreover have
    "addToSchedule c (accordionCtrl\<lparr>addedCourses := [c], shoppingCartSize := 1\<rparr>) =
      accordionCtrl\<lparr>addedCourses := [c], shoppingCartSize := 1\<rparr>"
    by (simp add: addToSchedule_present)
  ultimately show ?thesis
    by (simp add: addToSchedule_present addToSchedule_absent)
qed

theorem addToSchedule_by_identity_witness:
  "(0::nat) \<in> set (addedCourses (addToSchedule 0 accordionCtrl)) \<and>
   addToSchedule 0 (addToSchedule 0 accordionCtrl) = addToSchedule 0 accordionCtrl \<and>
   (1::nat) \<notin> set (addedCourses (addToSchedule 0 accordionCtrl)) \<and>
   addedCourses (addToSchedule 1 (addToSchedule 0 accordionCtrl)) = [0, 1] \<and>
   shoppingCartSize (addToSchedule 1 (addToSchedule 0 accordionCtrl)) = 2"
proof -
  have s0: "addedCourses (addToSchedule 0 accordionCtrl) = [0]"
    "shoppingCartSize (addToSchedule 0 accordionCtrl) = 1"
    by (simp_all add: addToSchedule_def accordionCtrl_def)
  from addToSchedule_by_identity [of 0 "addToSchedule 0 accordionCtrl"]
    addToSchedule_by_identity [of 1 "addToSchedule 0 accordionCtrl"] s0
  show ?thesis
    by simp
qed

text \<open>
  C7 as stated fails: the objects 0 and 1 hold equal course records and object 0 is in
  the list, yet adding object 1 appends it and the counter becomes 2.
\<close>

theorem value_equal_course_added_again:
  "value_equal (\<lambda>r. cmput_101) 0 1 \<and>
   addedCourses (addToSchedule 0 accordionCtrl) = [0] \<and>
   addedCourses (addToSchedule 1 (addToSchedule 0 accordionCtrl)) = [0, 1] \<and>
   shoppingCartSize (addToSchedule 1 (addToSchedule 0 accordionCtrl)) = 2 \<and>
   addToSchedule 1 (addToSchedule 0 accordionCtrl) \<noteq> addToSchedule 0 accordionCtrl"
  by (simp add: value_equal_def addToSchedule_def accordionCtrl_def)

lemma accordion_handle_cart:
  assumes "shoppingCartSize s = length (addedCourses s)"
  shows "shoppingCartSize (accordion_handle ev s) = length (addedCourses (accordion_handle ev s))"
proof (cases ev)
  case (Load_more i)
  with assms show ?thesis
    by (simp add: loadMore_def)
next
  case (Details_resolved i r)
  with assms show ?thesis
    by (cases r) (simp_all add: details_success_def details_error_def)
next
  case (Add_to_schedule c)
  with assms show ?thesis
    by (simp add: addToSchedule_def)
qed

lemma accordion_run_cart:
  "shoppingCartSize s = length (addedCourses s) \<Longrightarrow>
   shoppingCartSize (accordion_run evs s) = length (addedCourses (accordion_run evs s))"
  unfolding accordion_run_def
  by (induction evs arbitrary: s) (simp_all add: accordion_handle_cart)

text \<open>
  C10: from the initial state, after any sequence of calls of \<^verbatim>\<open>addToSchedule\<close> the
  counter \<^verbatim>\<open>shoppingCartSize\<close> is the length of \<^verbatim>\<open>addedCourses\<close>; the same holds when
  the other events of the controller come in between.
\<close>

theorem cart_size_is_list_length:
  "shoppingCartSize (accordion_run (map Add_to_schedule cs) accordionCtrl) =
     length (addedCourses (accordion_run (map Add_to_schedule cs) accordionCtrl)) \<and>
   shoppingCartSize (accordion_run evs accordionCtrl) =
     length (addedCourses (accordion_run evs accordionCtrl))"
  by (simp add: accordion_run_cart accordionCtrl_def)

end
